theory Spec2Isabelle
  imports Complex_Main "HOL-Library.Multiset" "HOL-Library.Sublist" "HOL-Library.Product_Lexorder"
    "HOL-Library.Log_Nat"
begin

section \<open>Shared data model\<close>

text \<open>
  \<open>PlatformId\<close>, \<open>Result\<close> and \<open>SearchResponse\<close> are imported by both source files from
  \<^verbatim>\<open>@/lib/platforms\<close>; their shape is the one the page reads
  (\<^verbatim>\<open>item.id\<close>, here \<open>item_id\<close>, \<^verbatim>\<open>item.metadata?.comments\<close>, \<^verbatim>\<open>data.meta.platforms\<close>, ...).
  JavaScript strings are modelled as \<open>string\<close>. A number carried by a response is given
  by its real value: it is a finite double, since JSON carries neither NaN nor an infinity.
  The arithmetic that the page does on such numbers is IEEE double arithmetic (see
  \<open>to_double\<close> below); the pipeline of the specification computes over the reals.
\<close>

datatype PlatformId = reddit | hackernews | devto

record Item =
  item_id :: string
  platform :: PlatformId
  title :: string
  url :: string
  excerpt :: string
  author :: "string option"
  metadata :: "string \<rightharpoonup> real"

record Result = Item +
  score :: real

record Meta =
  meta_query :: string
  generatedAt :: string
  meta_platforms :: "PlatformId list"
  recommendedAngles :: "string list"
  nextPrompts :: "string list"

record SearchResponse =
  results :: "Result list"
  meta :: Meta

record SearchRequest =
  req_query :: string
  req_platforms :: "PlatformId list"

text \<open>
  Modelled from the spec: the classes of the errors that \<^verbatim>\<open>@/lib/platforms\<close> throws, after
  the taxonomy of section 7; \<open>OtherError\<close> stands for every other class (the
  \<open>SyntaxError\<close> of a body that is not JSON, a \<open>TypeError\<close>, ...).
\<close>

datatype error_class = ValidationError | AggregationError | InternalError | OtherError

text \<open>
  A thrown JavaScript value is either an instance of \<open>Error\<close>, which carries a message,
  or some other value.
\<close>

datatype thrown = Error error_class string | NonError

section \<open>The HTTP route: \<open>POST\<close>\<close>

datatype json_body = DataBody SearchResponse | ErrorBody string

record http_response =
  status :: nat
  body :: json_body

text \<open>
  The server's environment: \<open>network\<close> is whatever \<open>searchAcrossPlatforms\<close> acts on,
  \<open>search_calls\<close> counts its invocations, \<open>console\<close> collects what \<open>console.error\<close> logs.
\<close>

record 'w server =
  network :: 'w
  search_calls :: nat
  console :: "thrown list"

text \<open>\<open>NextResponse.json(data)\<close> answers with status 200 unless another one is given.\<close>

definition NextResponse_json :: "json_body \<Rightarrow> nat option \<Rightarrow> http_response" where
  "NextResponse_json b init =
     \<lparr>status = (case init of None \<Rightarrow> 200 | Some s \<Rightarrow> s), body = b\<rparr>"

text \<open>The \<open>catch\<close> block of \<open>POST\<close> (lines 13 to 20).\<close>

definition error_message :: "thrown \<Rightarrow> string" where
  "error_message e = (case e of Error c m \<Rightarrow> m | NonError \<Rightarrow> ''Unknown error'')"

definition POST_catch :: "thrown \<Rightarrow> 'w server \<Rightarrow> http_response \<times> 'w server" where
  "POST_catch e s =
     (let s1 = s\<lparr>console := console s @ [e]\<rparr>;
          message = error_message e
      in (NextResponse_json (ErrorBody message) (Some 400), s1))"

text \<open>
  \<open>POST\<close> (lines 7 to 21). \<open>parseSearchRequest\<close> and \<open>searchAcrossPlatforms\<close> live in
  \<^verbatim>\<open>@/lib/platforms\<close> and are parameters: \<open>parse\<close> either throws or returns a request,
  \<open>search\<close> acts on the network and either throws or returns the response. The request is
  given by the outcome of \<open>request.json()\<close>.
\<close>

definition POST ::
  "('p \<Rightarrow> thrown + SearchRequest) \<Rightarrow>
   (SearchRequest \<Rightarrow> 'w \<Rightarrow> (thrown + SearchResponse) \<times> 'w) \<Rightarrow>
   thrown + 'p \<Rightarrow> 'w server \<Rightarrow> http_response \<times> 'w server" where
  "POST parseSearchRequest searchAcrossPlatforms request s =
     (case request of
        Inl e \<Rightarrow> POST_catch e s
      | Inr payload \<Rightarrow>
          (case parseSearchRequest payload of
             Inl e \<Rightarrow> POST_catch e s
           | Inr r \<Rightarrow>
               (let (outcome, w) =
                      searchAcrossPlatforms
                        \<lparr>req_query = req_query r, req_platforms = req_platforms r\<rparr> (network s);
                    s1 = s\<lparr>network := w, search_calls := search_calls s + 1\<rparr>
                in case outcome of
                     Inl e \<Rightarrow> POST_catch e s1
                   | Inr data \<Rightarrow> (NextResponse_json (DataBody data) None, s1))))"

text \<open>
  The outcome of the pipeline behind \<open>POST\<close>: the value thrown inside the \<open>try\<close> block,
  if any.
\<close>

definition POST_failure ::
  "('p \<Rightarrow> thrown + SearchRequest) \<Rightarrow>
   (SearchRequest \<Rightarrow> 'w \<Rightarrow> (thrown + SearchResponse) \<times> 'w) \<Rightarrow>
   thrown + 'p \<Rightarrow> 'w \<Rightarrow> thrown option" where
  "POST_failure parseSearchRequest searchAcrossPlatforms request w =
     (case request of
        Inl e \<Rightarrow> Some e
      | Inr payload \<Rightarrow>
          (case parseSearchRequest payload of
             Inl e \<Rightarrow> Some e
           | Inr r \<Rightarrow>
               (case fst (searchAcrossPlatforms
                            \<lparr>req_query = req_query r, req_platforms = req_platforms r\<rparr> w) of
                  Inl e \<Rightarrow> Some e
                | Inr data \<Rightarrow> None)))"

definition is_client_error :: "nat \<Rightarrow> bool" where
  "is_client_error st = (400 \<le> st \<and> st < 500)"

definition is_server_error :: "nat \<Rightarrow> bool" where
  "is_server_error st = (500 \<le> st \<and> st < 600)"

text \<open>Concrete collaborators used to run \<open>POST\<close> on examples.\<close>

definition sample_request :: SearchRequest where
  "sample_request = \<lparr>req_query = ''ai agents'', req_platforms = [reddit]\<rparr>"

definition accept_payload :: "unit \<Rightarrow> thrown + SearchRequest" where
  "accept_payload p = Inr sample_request"

definition reject_silently :: "unit \<Rightarrow> thrown + SearchRequest" where
  "reject_silently p = Inl (Error ValidationError [])"

definition reject_payload :: "unit \<Rightarrow> thrown + SearchRequest" where
  "reject_payload p = Inl (Error ValidationError ''Query is required'')"

definition all_adapters_fail :: "SearchRequest \<Rightarrow> nat \<Rightarrow> (thrown + SearchResponse) \<times> nat" where
  "all_adapters_fail r w = (Inl (Error AggregationError ''All platforms failed''), Suc w)"

definition idle_server :: "nat server" where
  "idle_server = \<lparr>network = 0, search_calls = 0, console = []\<rparr>"

section \<open>The page: \<open>HomePage\<close>\<close>

record HistoryEntry =
  entry_query :: string
  timestamp :: string
  entry_platforms :: "PlatformId list"
  summary :: Meta

text \<open>
  The string stored under \<open>STORAGE_KEY\<close>, as \<open>JSON.parse\<close> sees it: the JSON text of a
  list of history entries, or a string that \<open>JSON.parse\<close> rejects. \<open>NotJson []\<close> is the
  empty string. \<open>JSON.parse (JSON.stringify h)\<close> is taken to be \<open>h\<close>.
\<close>

datatype stored = Json "HistoryEntry list" | NotJson string

record fetch_request =
  fetch_url :: string
  fetch_method :: string
  fetch_body :: SearchRequest

text \<open>
  What \<open>fetch\<close> and the two \<open>response.json()\<close> calls can do: \<open>fetch\<close> rejects; or the
  response is not \<open>ok\<close> and its body either fails to decode or is an object with an
  optional \<open>error\<close> field; or the response is \<open>ok\<close> and its body either fails to decode
  or is a \<open>SearchResponse\<close>.
\<close>

datatype fetch_outcome =
    FetchThrows thrown
  | NotOk "thrown + string option"
  | Ok "thrown + SearchResponse"

text \<open>
  The state of the component (the six \<open>useState\<close> cells) together with the part of the
  browser it acts on: the value stored under \<open>STORAGE_KEY\<close>, the number of
  \<open>localStorage.getItem\<close> calls made so far, and the HTTP requests issued so far.
\<close>

record page =
  query :: string
  selectedPlatforms :: "PlatformId list"
  data :: "SearchResponse option"
  history :: "HistoryEntry list"
  error :: "string option"
  loading :: bool
  localStorage :: "stored option"
  getItem_calls :: nat
  fetch_log :: "fetch_request list"

text \<open>
  \<open>String.prototype.trim\<close>. Characters are code units below 256; the white space and line
  terminators of ECMAScript in that range are TAB, LF, VT, FF, CR, SP and NBSP.
\<close>

definition is_white_space :: "char \<Rightarrow> bool" where
  "is_white_space c =
     (c \<in> set [CHR 0x09, CHR 0x0A, CHR 0x0B, CHR 0x0C, CHR 0x0D, CHR 0x20, CHR 0xA0])"

definition trim :: "string \<Rightarrow> string" where
  "trim s = rev (dropWhile is_white_space (rev (dropWhile is_white_space s)))"

text \<open>The first effect (lines 49 to 59): it returns the state and the queued \<open>setHistory\<close>.\<close>

definition load_effect :: "page \<Rightarrow> page \<times> HistoryEntry list option" where
  "load_effect st =
     (let raw = localStorage st;
          st1 = st\<lparr>getItem_calls := getItem_calls st + 1\<rparr>
      in case raw of
           None \<Rightarrow> (st1, None)
         | Some (NotJson t) \<Rightarrow>
             if t = [] then (st1, None) else (st1\<lparr>localStorage := None\<rparr>, None)
         | Some (Json parsed) \<Rightarrow> (st1, Some parsed))"

text \<open>The second effect (lines 61 to 64), run after each render in which \<open>history\<close> changed.\<close>

definition save_effect :: "page \<Rightarrow> page" where
  "save_effect st = st\<lparr>localStorage := Some (Json (take 8 (history st)))\<rparr>"

definition setHistory :: "(HistoryEntry list \<Rightarrow> HistoryEntry list) \<Rightarrow> page \<Rightarrow> page" where
  "setHistory f st = save_effect (st\<lparr>history := f (history st)\<rparr>)"

text \<open>
  Mounting: both effects run, in the order of their declaration, on the first render
  (whose \<open>history\<close> is still the initial one); a queued \<open>setHistory\<close> then renders again.
\<close>

definition mount :: "page \<Rightarrow> page" where
  "mount st =
     (let (st1, queued) = load_effect st;
          st2 = save_effect st1
      in case queued of None \<Rightarrow> st2 | Some parsed \<Rightarrow> setHistory (\<lambda>prev. parsed) st2)"

definition initial_page :: "PlatformId list \<Rightarrow> stored option \<Rightarrow> page" where
  "initial_page PLATFORMS raw =
     \<lparr>query = ''climate-positive fintech for Gen Z investors'',
      selectedPlatforms = PLATFORMS,
      data = None, history = [], error = None, loading = False,
      localStorage = raw, getItem_calls = 0, fetch_log = []\<rparr>"

definition togglePlatform :: "PlatformId \<Rightarrow> page \<Rightarrow> page" where
  "togglePlatform p st =
     st\<lparr>selectedPlatforms :=
          (let current = selectedPlatforms st
           in if p \<in> set current then filter (\<lambda>item. item \<noteq> p) current else current @ [p])\<rparr>"

definition reuseSearch :: "HistoryEntry \<Rightarrow> page \<Rightarrow> page" where
  "reuseSearch entry st =
     st\<lparr>query := entry_query entry, selectedPlatforms := entry_platforms entry\<rparr>"

text \<open>The \<open>catch\<close> and \<open>finally\<close> blocks of \<open>handleSubmit\<close> (lines 114 to 119).\<close>

definition submit_catch :: "thrown \<Rightarrow> page \<Rightarrow> page" where
  "submit_catch err st =
     (let message = (case err of Error c m \<Rightarrow> m | NonError \<Rightarrow> ''Unexpected failure.'')
      in st\<lparr>error := Some message\<rparr>)"

definition submit_finally :: "page \<Rightarrow> page" where
  "submit_finally st = st\<lparr>loading := False\<rparr>"

definition new_entry :: "SearchResponse \<Rightarrow> HistoryEntry" where
  "new_entry payload =
     \<lparr>entry_query = meta_query (meta payload),
      timestamp = generatedAt (meta payload),
      entry_platforms = meta_platforms (meta payload),
      summary = meta payload\<rparr>"

definition push_history :: "SearchResponse \<Rightarrow> HistoryEntry list \<Rightarrow> HistoryEntry list" where
  "push_history payload prev =
     new_entry payload #
     filter (\<lambda>item. entry_query item \<noteq> meta_query (meta payload)) prev"

text \<open>The request that \<open>handleSubmit\<close> passes to \<open>fetch\<close> (lines 92 to 96).\<close>

definition submit_request :: "page \<Rightarrow> fetch_request" where
  "submit_request st =
     \<lparr>fetch_url = ''/api/search'', fetch_method = ''POST'',
      fetch_body = \<lparr>req_query = trim (query st), req_platforms = selectedPlatforms st\<rparr>\<rparr>"

text \<open>
  \<open>handleSubmit\<close> (lines 77 to 122), with \<open>fetch\<close> a parameter: the answer of the network
  to a request.
\<close>

definition handleSubmit :: "(fetch_request \<Rightarrow> fetch_outcome) \<Rightarrow> page \<Rightarrow> page" where
  "handleSubmit fetch st =
     (if trim (query st) = [] then st\<lparr>error := Some ''Enter a topic to scout for signals.''\<rparr>
      else if length (selectedPlatforms st) = 0
      then st\<lparr>error := Some ''Select at least one platform.''\<rparr>
      else
        (let req = submit_request st;
             st1 = st\<lparr>error := None, loading := True, fetch_log := fetch_log st @ [req]\<rparr>
         in submit_finally
              (case fetch req of
                 FetchThrows err \<Rightarrow> submit_catch err st1
               | NotOk decoded \<Rightarrow>
                   (let payload_error = (case decoded of Inl err \<Rightarrow> None | Inr e \<Rightarrow> e)
                    in submit_catch
                         (Error OtherError
                            (case payload_error of
                               None \<Rightarrow> ''Agent failed to scout signals.''
                             | Some m \<Rightarrow> m))
                         st1)
               | Ok (Inl err) \<Rightarrow> submit_catch err st1
               | Ok (Inr payload) \<Rightarrow>
                   setHistory (push_history payload) (st1\<lparr>data := Some payload\<rparr>))))"

text \<open>\<open>Math.round\<close> rounds to the nearest integer, a half upwards.\<close>

definition Math_round :: "real \<Rightarrow> int" where
  "Math_round x = \<lfloor>x + 1 / 2\<rfloor>"

text \<open>
  The value of a JavaScript expression of type number: a finite double, given by its real
  value, an infinity or NaN. The sign of a zero is not kept: it would only show in a
  division by zero, which \<open>engagementScore\<close> never does (it divides by a length that is
  not 0 and by 10), and React renders both zeros as \<open>0\<close>.
\<close>

datatype number = Num real | PosInfinity | NegInfinity | NaN

text \<open>
  The binary exponent of a real \<open>x \<noteq> 0\<close>: the integer \<open>e\<close> with
  \<open>2 ^ e \<le> \<bar>x\<bar> < 2 ^ (e + 1)\<close>, computed from the bit length of an integer.
\<close>

definition exponent :: "real \<Rightarrow> int" where
  "exponent x =
     (if 1 \<le> \<bar>x\<bar> then bitlen \<lfloor>\<bar>x\<bar>\<rfloor> - 1 else - bitlen (\<lceil>1 / \<bar>x\<bar>\<rceil> - 1))"

text \<open>
  The spacing of the doubles around \<open>x\<close>: 53 significant bits, and the spacing of the
  subnormal numbers, \<open>2 ^ - 1074\<close>, below \<open>2 ^ - 1022\<close>.
\<close>

definition quantum :: "real \<Rightarrow> real" where
  "quantum x = 2 powi (max (exponent x - 52) (- 1074))"

definition round_half_even :: "real \<Rightarrow> int" where
  "round_half_even t =
     (let f = \<lfloor>t\<rfloor>; d = t - real_of_int f
      in if d < 1 / 2 then f else if 1 / 2 < d then f + 1 else if even f then f else f + 1)"

text \<open>
  The rounding of IEEE 754 double arithmetic (to nearest, ties to even): the double
  nearest to the exact result, and an infinity when that is \<open>2 ^ 1024\<close> or more.
\<close>

definition to_double :: "real \<Rightarrow> number" where
  "to_double x =
     (if x = 0 then Num 0
      else
        (let q = quantum x; y = real_of_int (round_half_even (x / q)) * q
         in if 2 ^ 1024 \<le> \<bar>y\<bar> then (if 0 < x then PosInfinity else NegInfinity)
            else Num y))"

text \<open>
  The three operations of \<open>engagementScore\<close> on a number and a finite operand: \<open>sum + b\<close>
  with a finite \<open>b\<close>, \<open>a / d\<close> and \<open>a * d\<close> with a finite \<open>d > 0\<close>.
\<close>

fun number_add :: "number \<Rightarrow> real \<Rightarrow> number" where
  "number_add (Num a) b = to_double (a + b)"
| "number_add PosInfinity b = PosInfinity"
| "number_add NegInfinity b = NegInfinity"
| "number_add NaN b = NaN"

fun number_div :: "number \<Rightarrow> real \<Rightarrow> number" where
  "number_div (Num a) d = to_double (a / d)"
| "number_div PosInfinity d = PosInfinity"
| "number_div NegInfinity d = NegInfinity"
| "number_div NaN d = NaN"

fun number_mul :: "number \<Rightarrow> real \<Rightarrow> number" where
  "number_mul (Num a) d = to_double (a * d)"
| "number_mul PosInfinity d = PosInfinity"
| "number_mul NegInfinity d = NegInfinity"
| "number_mul NaN d = NaN"

text \<open>\<open>Math.round\<close> on a number: exact on a finite one, the identity on the others.\<close>

fun number_round :: "number \<Rightarrow> number" where
  "number_round (Num a) = Num (real_of_int (Math_round a))"
| "number_round PosInfinity = PosInfinity"
| "number_round NegInfinity = NegInfinity"
| "number_round NaN = NaN"

text \<open>
  \<open>engagementScore\<close> (lines 129 to 134), as a function of \<open>data\<close>: the \<open>reduce\<close> from 0, the
  division by the length, the scaling by 10, \<open>Math.round\<close> and the division by 10, each
  rounded as double arithmetic rounds it.
\<close>

definition engagementScore :: "SearchResponse option \<Rightarrow> number" where
  "engagementScore d =
     (case d of
        None \<Rightarrow> Num 0
      | Some r \<Rightarrow>
          if length (results r) = 0 then Num 0
          else
            (let total = foldl (\<lambda>sum item. number_add sum (score item)) (Num 0) (results r)
             in number_div
                  (number_round (number_mul (number_div total (real (length (results r)))) 10))
                  10))"

text \<open>What can happen to a mounted page, and a run of such events.\<close>

datatype event =
    Submit "fetch_request \<Rightarrow> fetch_outcome"
  | SetQuery string
  | Toggle PlatformId
  | Reuse HistoryEntry

fun step :: "event \<Rightarrow> page \<Rightarrow> page" where
  "step (Submit fetch) st = handleSubmit fetch st"
| "step (SetQuery q) st = st\<lparr>query := q\<rparr>"
| "step (Toggle p) st = togglePlatform p st"
| "step (Reuse entry) st = reuseSearch entry st"

definition run_events :: "event list \<Rightarrow> page \<Rightarrow> page" where
  "run_events evs st = fold step evs st"

text \<open>Concrete pages and network answers used to run the page on examples.\<close>

definition sample_result :: "PlatformId \<Rightarrow> string \<Rightarrow> real \<Rightarrow> Result" where
  "sample_result p i sc =
     \<lparr>item_id = i, platform = p, title = ''t'', url = ''u'', excerpt = ''x'',
      author = None, metadata = Map.empty, score = sc\<rparr>"

text \<open>The scores of \<open>sample_response\<close> are the doubles written 8.4 and 7.3.\<close>

definition sample_response :: SearchResponse where
  "sample_response =
     \<lparr>results = [sample_result reddit ''reddit:a'' (4728779608739021 / 562949953421312),
                 sample_result devto ''devto:b'' (8219069319951155 / 1125899906842624)],
      meta = \<lparr>meta_query = ''ai agents'', generatedAt = ''2024-01-01T00:00:00.000Z'',
              meta_platforms = [reddit, devto],
              recommendedAngles = [''angle''], nextPrompts = [''prompt'']\<rparr>\<rparr>"

text \<open>The scores of \<open>low_response\<close> are 0 and the double written 0.3.\<close>

definition low_response :: SearchResponse where
  "low_response =
     \<lparr>results = [sample_result reddit ''reddit:a'' 0,
                 sample_result devto ''devto:b'' (5404319552844595 / 18014398509481984)],
      meta = \<lparr>meta_query = ''ai agents'', generatedAt = ''2024-01-01T00:00:00.000Z'',
              meta_platforms = [reddit, devto],
              recommendedAngles = [''angle''], nextPrompts = [''prompt'']\<rparr>\<rparr>"

definition blank_page :: page where
  "blank_page = (initial_page [reddit, hackernews, devto] None)\<lparr>query := ''  ''\<rparr>"

definition ready_page :: page where
  "ready_page =
     (initial_page [reddit, hackernews, devto] None)
       \<lparr>query := '' ai agents '',
        history := [new_entry sample_response]\<rparr>"

definition nine_entries :: "HistoryEntry list" where
  "nine_entries = replicate 9 (new_entry sample_response)"

definition server_answers :: "fetch_request \<Rightarrow> fetch_outcome" where
  "server_answers req = Ok (Inr sample_response)"

section \<open>The pipeline behind \<open>searchAcrossPlatforms\<close>\<close>

text \<open>
  The module \<^verbatim>\<open>@/lib/platforms\<close> is not among the sources. Every definition of this
  section is written from the specification (sections 3 to 5); the constants that the
  specification leaves open are the fields of \<open>config\<close>.
\<close>

text \<open>Modelled from the spec: the causes of an adapter failure (section 4.2).\<close>

datatype cause = timeout | rate_limited | transport | malformed_response | empty_credentials

text \<open>Modelled from the spec: \<open>AdapterError{platform, cause}\<close> (section 4.2).\<close>

record AdapterError =
  err_platform :: PlatformId
  err_cause :: cause

text \<open>
  Modelled from the spec: the failures of the Orchestrator (section 4.3), an
  \<open>AggregationError\<close> with its failures or an \<open>InternalError\<close> for an unregistered platform.
\<close>

datatype failure = Aggregation "AdapterError list" | Internal PlatformId

text \<open>
  Modelled from the spec: a platform-native item (section 3, RawPlatformItem) and the
  capability of an adapter, \<open>search(query)\<close> (section 4.2).
\<close>

record RawPlatformItem =
  native_id :: string
  raw_title :: string
  raw_url :: string
  raw_text :: string
  raw_author :: "string option"
  raw_metrics :: "string \<rightharpoonup> real"

type_synonym adapter = "string \<Rightarrow> cause + RawPlatformItem list"

text \<open>
  Modelled from the spec: the constants that the specification names without fixing them:
  the weights and the normalisation constant of each platform (section 4.4), the
  per-platform limit and the cap of the excerpt (section 4.2), the optional maximum total
  (section 4.5).
\<close>

record config =
  primary_weight :: "PlatformId \<Rightarrow> real"
  secondary_weight :: "PlatformId \<Rightarrow> real"
  normalization :: "PlatformId \<Rightarrow> real"
  adapter_limit :: nat
  excerpt_limit :: nat
  max_total :: "nat option"

text \<open>Modelled from the spec: the identifier of a platform as text (section 3, PlatformId).\<close>

fun platform_name :: "PlatformId \<Rightarrow> string" where
  "platform_name reddit = ''reddit''"
| "platform_name hackernews = ''hackernews''"
| "platform_name devto = ''devto''"

text \<open>
  Modelled from the spec: the normalisation an adapter applies to one raw item
  (section 4.2): the id is \<open><platform>:<native-id>\<close>, the excerpt is length-capped.
\<close>

definition normalize :: "config \<Rightarrow> PlatformId \<Rightarrow> RawPlatformItem \<Rightarrow> Item" where
  "normalize cfg p raw =
     \<lparr>item_id = platform_name p @ '':'' @ native_id raw,
      platform = p,
      title = raw_title raw,
      url = raw_url raw,
      excerpt = take (excerpt_limit cfg) (raw_text raw),
      author = raw_author raw,
      metadata = raw_metrics raw\<rparr>"

text \<open>
  Modelled from the spec: what one platform contributes to the merge (sections 4.2 and
  4.3): the normalised items of a successful adapter, capped at the per-platform limit;
  nothing from an adapter that failed.
\<close>

definition contribution ::
  "config \<Rightarrow> (PlatformId \<rightharpoonup> adapter) \<Rightarrow> string \<Rightarrow> PlatformId \<Rightarrow> Item list" where
  "contribution cfg registry q p =
     (case registry p of
        None \<Rightarrow> []
      | Some search \<Rightarrow>
          (case search q of
             Inl c \<Rightarrow> []
           | Inr raws \<Rightarrow> map (normalize cfg p) (take (adapter_limit cfg) raws)))"

text \<open>
  Modelled from the spec: the failure recorded for one platform (section 4.3), if its
  adapter failed.
\<close>

definition adapter_failure ::
  "(PlatformId \<rightharpoonup> adapter) \<Rightarrow> string \<Rightarrow> PlatformId \<Rightarrow> AdapterError option" where
  "adapter_failure registry q p =
     (case registry p of
        None \<Rightarrow> None
      | Some search \<Rightarrow>
          (case search q of
             Inl c \<Rightarrow> Some \<lparr>err_platform = p, err_cause = c\<rparr>
           | Inr raws \<Rightarrow> None))"

text \<open>
  Modelled from the spec: the real-time order in which the concurrent adapter calls finish
  (section 5). The numbers of \<open>race\<close> decide which of the calls still in flight finishes
  next; the result is a rearrangement of the calls, whatever the numbers.
\<close>

fun finish_order :: "nat list \<Rightarrow> 'a list \<Rightarrow> 'a list" where
  "finish_order race [] = []"
| "finish_order [] (x # xs) = x # xs"
| "finish_order (k # race) (x # xs) =
     (let i = k mod length (x # xs)
      in (x # xs) ! i # finish_order race (take i (x # xs) @ drop (Suc i) (x # xs)))"

text \<open>
  Modelled from the spec: the Orchestrator, \<open>run\<close> (section 4.3). An unregistered platform
  is an \<open>InternalError\<close>; all adapters are joined; if every selected adapter failed the
  outcome is an \<open>AggregationError\<close> listing the failures; otherwise the successes are
  concatenated, here in the order in which the adapters finished, and the platforms
  attempted are reported.
\<close>

definition run ::
  "config \<Rightarrow> (PlatformId \<rightharpoonup> adapter) \<Rightarrow> nat list \<Rightarrow> SearchRequest \<Rightarrow>
   failure + Item list \<times> PlatformId list" where
  "run cfg registry race request =
     (let attempted = req_platforms request;
          q = req_query request
      in case filter (\<lambda>p. registry p = None) attempted of
           p # ps \<Rightarrow> Inl (Internal p)
         | [] \<Rightarrow>
             (let failures = List.map_filter (adapter_failure registry q) attempted
              in if attempted \<noteq> [] \<and> length failures = length attempted
                 then Inl (Aggregation failures)
                 else Inr (concat (map (contribution cfg registry q)
                                     (finish_order race attempted)),
                           attempted)))"

text \<open>
  Modelled from the spec: the primary and the secondary metric of each platform
  (section 4.4): upvotes and comments, points and comments, reactions and comments.
\<close>

fun primary_metric :: "PlatformId \<Rightarrow> string" where
  "primary_metric reddit = ''upvotes''"
| "primary_metric hackernews = ''points''"
| "primary_metric devto = ''reactions''"

text \<open>Modelled from the spec: the secondary metric is \<open>comments\<close> on every platform.\<close>

definition secondary_metric :: "PlatformId \<Rightarrow> string" where
  "secondary_metric p = ''comments''"

text \<open>
  Modelled from the spec: reading a metric (section 4.4, edge cases): an absent key is 0,
  a negative value is clamped to 0.
\<close>

definition metric :: "(string \<rightharpoonup> real) \<Rightarrow> string \<Rightarrow> real" where
  "metric m k = (case m k of None \<Rightarrow> 0 | Some v \<Rightarrow> max 0 v)"

text \<open>
  Modelled from the spec: the weighted sum, the logarithmic transform and the scaling of
  the Scoring Engine (section 4.4), before rounding.
\<close>

definition signal :: "config \<Rightarrow> Item \<Rightarrow> real" where
  "signal cfg it =
     (let p = platform it;
          weighted = primary_weight cfg p * metric (metadata it) (primary_metric p) +
                     secondary_weight cfg p * metric (metadata it) (secondary_metric p)
      in normalization cfg p * ln (1 + weighted))"

text \<open>
  Modelled from the spec: the Scoring Engine, \<open>score\<close> (section 4.4): the scaled value
  rounded to one decimal place.
\<close>

definition score_of :: "config \<Rightarrow> Item \<Rightarrow> real" where
  "score_of cfg it = real_of_int (Math_round (signal cfg it * 10)) / 10"

text \<open>Modelled from the spec: a normalised item with its score, a \<open>Result\<close> (section 3).\<close>

definition scored :: "config \<Rightarrow> Item \<Rightarrow> Result" where
  "scored cfg it =
     \<lparr>item_id = item_id it, platform = platform it, title = title it, url = url it,
      excerpt = excerpt it, author = author it, metadata = metadata it,
      score = score_of cfg it\<rparr>"

text \<open>
  Modelled from the spec: the fixed platform precedence of the Ranker (section 4.5):
  reddit, hackernews, devto.
\<close>

fun precedence :: "PlatformId \<Rightarrow> nat" where
  "precedence reddit = 0"
| "precedence hackernews = 1"
| "precedence devto = 2"

text \<open>Modelled from the spec: the sort key of the Ranker, score descending then precedence.\<close>

definition rank_key :: "Result \<Rightarrow> real \<times> nat" where
  "rank_key r = (- score r, precedence (platform r))"

text \<open>
  Modelled from the spec: the Ranker, \<open>rank\<close> (section 4.5): a stable sort by score
  descending, ties broken by platform precedence (the key is ordered lexicographically),
  then the optional truncation to a maximum total.
\<close>

definition rank :: "config \<Rightarrow> Result list \<Rightarrow> Result list" where
  "rank cfg rs =
     (let ordered = sort_key rank_key rs
      in case max_total cfg of None \<Rightarrow> ordered | Some n \<Rightarrow> take n ordered)"

text \<open>
  Modelled from the spec: the pipeline (section 2, control flow) from a validated request
  on: Orchestrator, Scoring Engine, Ranker, Insight Generator, Response Assembler. The
  Insight Generator is the parameter \<open>synthesize\<close>, a function of the query and the ranked
  results (section 4.6); \<open>now\<close> is the time of assembly.
\<close>

definition searchAcrossPlatforms ::
  "config \<Rightarrow> (PlatformId \<rightharpoonup> adapter) \<Rightarrow>
   (string \<Rightarrow> Result list \<Rightarrow> string list \<times> string list) \<Rightarrow>
   nat list \<Rightarrow> string \<Rightarrow> SearchRequest \<Rightarrow> failure + SearchResponse" where
  "searchAcrossPlatforms cfg registry synthesize race now request =
     (case run cfg registry race request of
        Inl f \<Rightarrow> Inl f
      | Inr (merged, attempted) \<Rightarrow>
          (let ranked = rank cfg (map (scored cfg) merged);
               (angles, prompts) = synthesize (req_query request) ranked
           in Inr \<lparr>results = ranked,
                   meta = \<lparr>meta_query = req_query request,
                           generatedAt = now,
                           meta_platforms = attempted,
                           recommendedAngles = angles,
                           nextPrompts = prompts\<rparr>\<rparr>))"

text \<open>Modelled from the spec: the invariant of a SearchRequest (section 3).\<close>

definition valid_request :: "SearchRequest \<Rightarrow> bool" where
  "valid_request r =
     (req_query r \<noteq> [] \<and> trim (req_query r) = req_query r \<and>
      req_platforms r \<noteq> [] \<and> distinct (req_platforms r))"

text \<open>A response with the time of assembly blanked out.\<close>

definition forget_generatedAt :: "SearchResponse \<Rightarrow> SearchResponse" where
  "forget_generatedAt r = r\<lparr>meta := (meta r)\<lparr>generatedAt := []\<rparr>\<rparr>"

text \<open>Concrete configuration and mocked adapters used to run the pipeline on examples.\<close>

definition sample_config :: config where
  "sample_config =
     \<lparr>primary_weight = (\<lambda>p. 7 / 10), secondary_weight = (\<lambda>p. 3 / 10),
      normalization = (\<lambda>p. 1), adapter_limit = 25, excerpt_limit = 280,
      max_total = Some 40\<rparr>"

definition sample_raw :: "string \<Rightarrow> RawPlatformItem" where
  "sample_raw i =
     \<lparr>native_id = i, raw_title = ''t'', raw_url = ''u'', raw_text = ''x'',
      raw_author = None, raw_metrics = Map.empty\<rparr>"

definition sample_registry :: "PlatformId \<rightharpoonup> adapter" where
  "sample_registry p =
     (case p of
        reddit \<Rightarrow> Some (\<lambda>q. Inr [sample_raw ''a'', sample_raw ''b''])
      | hackernews \<Rightarrow> Some (\<lambda>q. Inl timeout)
      | devto \<Rightarrow> Some (\<lambda>q. Inr [sample_raw ''c'']))"

definition sample_synthesize :: "string \<Rightarrow> Result list \<Rightarrow> string list \<times> string list" where
  "sample_synthesize q rs = ([q], [q])"

definition sample_ranked :: "Result list" where
  "sample_ranked =
     [sample_result reddit ''reddit:a'' 0, sample_result reddit ''reddit:b'' 0,
      sample_result devto ''devto:c'' 0]"

definition sample_outcome :: "string \<Rightarrow> SearchResponse" where
  "sample_outcome now =
     \<lparr>results = sample_ranked,
      meta = \<lparr>meta_query = ''ai agents'', generatedAt = now,
              meta_platforms = [reddit, hackernews, devto],
              recommendedAngles = [''ai agents''], nextPrompts = [''ai agents'']\<rparr>\<rparr>"

definition all_platforms_request :: SearchRequest where
  "all_platforms_request =
     \<lparr>req_query = ''ai agents'', req_platforms = [reddit, hackernews, devto]\<rparr>"

section \<open>Properties of the HTTP route\<close>

lemma POST_failure_response:
  "POST_failure parse search request (network s) = Some e \<Longrightarrow>
   fst (POST parse search request s) = \<lparr>status = 400, body = ErrorBody (error_message e)\<rparr>"
  by (auto simp: POST_failure_def POST_def POST_catch_def NextResponse_json_def Let_def
           split: sum.splits prod.splits)

lemma POST_success_response:
  "POST_failure parse search request (network s) = None \<Longrightarrow>
   \<exists>data. fst (POST parse search request s) = \<lparr>status = 200, body = DataBody data\<rparr>"
  by (auto simp: POST_failure_def POST_def POST_catch_def NextResponse_json_def Let_def
           split: sum.splits prod.splits)

text \<open>
  Claim C1, as amended. The route does not tell failures apart: whatever is thrown inside
  the \<open>try\<close> block (a \<open>ValidationError\<close>, an \<open>AggregationError\<close>, an \<open>InternalError\<close> or
  any other value), the answer has status 400, a client-error status, never a
  server-error one.
\<close>

theorem POST_every_failure_is_400:
  "POST_failure parse search request (network s) = Some e \<Longrightarrow>
   status (fst (POST parse search request s)) = 400 \<and>
   is_client_error (status (fst (POST parse search request s))) \<and>
   \<not> is_server_error (status (fst (POST parse search request s)))"
  by (simp add: POST_failure_response is_client_error_def is_server_error_def)

text \<open>
  Witness for C1: a request that passes validation and on which every adapter fails.
\<close>

theorem POST_every_failure_is_400_witness:
  "POST_failure accept_payload all_adapters_fail (Inr ()) (network idle_server)
     = Some (Error AggregationError ''All platforms failed'') \<and>
   status (fst (POST accept_payload all_adapters_fail (Inr ()) idle_server)) = 400"
  using POST_every_failure_is_400 [of accept_payload all_adapters_fail "Inr ()" idle_server
      "Error AggregationError ''All platforms failed''"]
  by (simp add: POST_failure_def accept_payload_def all_adapters_fail_def)

text \<open>
  Counterexample to C1 as stated: the pipeline fails with an \<open>AggregationError\<close>, which is
  not a validation failure, and the status is 400, not a server error.
\<close>

theorem POST_aggregation_failure_not_server_error:
  "POST_failure accept_payload all_adapters_fail (Inr ()) (network idle_server)
     = Some (Error AggregationError ''All platforms failed'') \<and>
   status (fst (POST accept_payload all_adapters_fail (Inr ()) idle_server)) = 400 \<and>
   \<not> is_server_error (status (fst (POST accept_payload all_adapters_fail (Inr ()) idle_server)))"
  by (simp add: POST_failure_def POST_def POST_catch_def NextResponse_json_def
        accept_payload_def all_adapters_fail_def idle_server_def is_server_error_def)

text \<open>
  Claim C2. When \<open>parseSearchRequest\<close> rejects the payload, \<open>POST\<close> answers with the
  validation error at once: \<open>searchAcrossPlatforms\<close> is not invoked (the count of its
  calls and the network are unchanged, whatever \<open>search\<close> is), and the only effect is the
  log entry.
\<close>

theorem POST_validation_failure_skips_search:
  assumes "request = Inr payload" and "parse payload = Inl e"
  shows "POST parse search request s =
           (\<lparr>status = 400, body = ErrorBody (error_message e)\<rparr>,
            s\<lparr>console := console s @ [e]\<rparr>) \<and>
         search_calls (snd (POST parse search request s)) = search_calls s \<and>
         network (snd (POST parse search request s)) = network s"
  using assms by (simp add: POST_def POST_catch_def NextResponse_json_def)

text \<open>
  Witness for C2: a payload that the validator rejects.
\<close>

theorem POST_validation_failure_skips_search_witness:
  "reject_payload () = Inl (Error ValidationError ''Query is required'') \<and>
   POST reject_payload all_adapters_fail (Inr ()) idle_server =
     (\<lparr>status = 400, body = ErrorBody ''Query is required''\<rparr>,
      \<lparr>network = 0, search_calls = 0,
       console = [Error ValidationError ''Query is required'']\<rparr>)"
  using POST_validation_failure_skips_search [of "Inr ()" "()" reject_payload
      "Error ValidationError ''Query is required''" all_adapters_fail idle_server]
  by (simp add: reject_payload_def idle_server_def error_message_def)

text \<open>
  Claim C5, as amended. Whenever \<open>POST\<close> fails, the body of the answer is an error object
  whose message is taken from the thrown value: the message of a thrown \<open>Error\<close>, and the
  fixed text \<open>Unknown error\<close> for any other thrown value. The message is empty exactly when
  the thrown \<open>Error\<close> has an empty message; in every other case it is non-empty.
\<close>

theorem POST_failure_carries_message:
  assumes "POST_failure parse search request (network s) = Some e"
  shows "\<exists>msg. body (fst (POST parse search request s)) = ErrorBody msg \<and>
           (case e of Error c m \<Rightarrow> msg = m | NonError \<Rightarrow> msg = ''Unknown error'') \<and>
           (msg = [] \<longleftrightarrow> (\<exists>c. e = Error c []))"
  using POST_failure_response [OF assms]
  by (cases e) (simp_all add: error_message_def)

text \<open>
  Witness for C5: a validation failure with its message.
\<close>

theorem POST_failure_carries_message_witness:
  "POST_failure reject_payload all_adapters_fail (Inr ()) (network idle_server)
     = Some (Error ValidationError ''Query is required'') \<and>
   body (fst (POST reject_payload all_adapters_fail (Inr ()) idle_server))
     = ErrorBody ''Query is required'' \<and> ''Query is required'' \<noteq> []"
  using POST_failure_carries_message [of reject_payload all_adapters_fail "Inr ()" idle_server
      "Error ValidationError ''Query is required''"]
  by (simp add: POST_failure_def reject_payload_def)

text \<open>
  Counterexample to C5 as stated: the validator throws an \<open>Error\<close> whose message is empty,
  \<open>POST\<close> fails, and the error message in the body is the empty string.
\<close>

theorem POST_failure_empty_message:
  "POST_failure reject_silently all_adapters_fail (Inr ()) (network idle_server)
     = Some (Error ValidationError []) \<and>
   fst (POST reject_silently all_adapters_fail (Inr ()) idle_server)
     = \<lparr>status = 400, body = ErrorBody []\<rparr>"
  by (simp add: POST_failure_def POST_def POST_catch_def NextResponse_json_def
        reject_silently_def error_message_def)

section \<open>Properties of the page\<close>

lemma save_effect_storage:
  "localStorage (save_effect st) = Some (Json (take 8 (history (save_effect st))))"
  by (simp add: save_effect_def)

lemma setHistory_storage:
  "localStorage (setHistory f st) = Some (Json (take 8 (history (setHistory f st))))"
  by (simp add: setHistory_def save_effect_def)

lemma mount_storage:
  "localStorage (mount st) = Some (Json (take 8 (history (mount st))))"
  by (simp add: mount_def load_effect_def setHistory_def save_effect_def Let_def
        split: option.splits stored.splits prod.splits)

lemma mount_getItem_calls: "getItem_calls (mount st) = getItem_calls st + 1"
  by (auto simp add: mount_def load_effect_def setHistory_def save_effect_def Let_def
        split: option.splits stored.splits prod.splits)

lemma handleSubmit_storage:
  "localStorage st = Some (Json (take 8 (history st))) \<Longrightarrow>
   localStorage (handleSubmit fetch st) = Some (Json (take 8 (history (handleSubmit fetch st))))"
  by (simp add: handleSubmit_def submit_finally_def submit_catch_def setHistory_def
        save_effect_def Let_def split: fetch_outcome.splits sum.splits)

lemma handleSubmit_getItem_calls: "getItem_calls (handleSubmit fetch st) = getItem_calls st"
  by (simp add: handleSubmit_def submit_finally_def submit_catch_def setHistory_def
        save_effect_def Let_def split: fetch_outcome.splits sum.splits)

lemma step_storage:
  "localStorage st = Some (Json (take 8 (history st))) \<Longrightarrow>
   localStorage (step ev st) = Some (Json (take 8 (history (step ev st))))"
  by (cases ev) (simp_all add: handleSubmit_storage togglePlatform_def reuseSearch_def)

lemma step_getItem_calls: "getItem_calls (step ev st) = getItem_calls st"
  by (cases ev) (simp_all add: handleSubmit_getItem_calls togglePlatform_def reuseSearch_def)

lemma run_events_storage:
  "localStorage st = Some (Json (take 8 (history st))) \<Longrightarrow>
   localStorage (run_events evs st) = Some (Json (take 8 (history (run_events evs st))))"
  unfolding run_events_def
  by (induction evs arbitrary: st) (simp_all add: step_storage)

lemma run_events_getItem_calls: "getItem_calls (run_events evs st) = getItem_calls st"
  unfolding run_events_def
  by (induction evs arbitrary: st) (simp_all add: step_getItem_calls)

text \<open>
  Claim C6. On a page that has been mounted, after any run of events: \<open>localStorage\<close> has
  been read exactly once (by the mount), and the list saved under the storage key is the
  first 8 entries of the history, so it never holds more than 8 entries.
\<close>

theorem history_lifecycle:
  "getItem_calls (run_events evs (mount (initial_page PLATFORMS raw))) = 1 \<and>
   (\<exists>saved.
      localStorage (run_events evs (mount (initial_page PLATFORMS raw))) = Some (Json saved) \<and>
      saved = take 8 (history (run_events evs (mount (initial_page PLATFORMS raw)))) \<and>
      length saved \<le> 8)"
  by (simp add: run_events_getItem_calls mount_getItem_calls run_events_storage mount_storage
        initial_page_def)

text \<open>
  Witness for C6: nine entries are found in the storage at mount; eight are saved back,
  and after a submission the single remaining entry is.
\<close>

theorem history_lifecycle_witness:
  "localStorage (run_events [] (mount (initial_page [reddit] (Some (Json nine_entries))))) =
     Some (Json (replicate 8 (new_entry sample_response))) \<and>
   history (run_events [] (mount (initial_page [reddit] (Some (Json nine_entries))))) =
     nine_entries \<and>
   getItem_calls
     (run_events [Submit server_answers]
        (mount (initial_page [reddit] (Some (Json nine_entries))))) = 1 \<and>
   localStorage
     (run_events [Submit server_answers]
        (mount (initial_page [reddit] (Some (Json nine_entries))))) =
     Some (Json [new_entry sample_response])"
  using history_lifecycle [of "[]" "[reddit]" "Some (Json nine_entries)"]
    history_lifecycle [of "[Submit server_answers]" "[reddit]" "Some (Json nine_entries)"]
  by (simp add: run_events_def mount_def load_effect_def save_effect_def setHistory_def
        initial_page_def nine_entries_def handleSubmit_def submit_finally_def
        submit_request_def server_answers_def push_history_def new_entry_def
        trim_def is_white_space_def Let_def)

text \<open>
  Claim C8. If the query trims to the empty string or no platform is selected,
  \<open>handleSubmit\<close> issues no HTTP request, leaves \<open>data\<close> (and everything else) unchanged and
  sets the error message.
\<close>

theorem handleSubmit_guard:
  assumes "trim (query st) = [] \<or> selectedPlatforms st = []"
  shows "fetch_log (handleSubmit fetch st) = fetch_log st \<and>
         data (handleSubmit fetch st) = data st \<and>
         error (handleSubmit fetch st) =
           Some (if trim (query st) = [] then ''Enter a topic to scout for signals.''
                 else ''Select at least one platform.'') \<and>
         handleSubmit fetch st = st\<lparr>error := error (handleSubmit fetch st)\<rparr>"
  using assms by (auto simp: handleSubmit_def)

text \<open>
  Witness for C8: a query of two spaces.
\<close>

theorem handleSubmit_guard_witness:
  "trim (query blank_page) = [] \<and>
   fetch_log (handleSubmit server_answers blank_page) = [] \<and>
   data (handleSubmit server_answers blank_page) = None \<and>
   error (handleSubmit server_answers blank_page) = Some ''Enter a topic to scout for signals.''"
  using handleSubmit_guard [of blank_page server_answers]
  by (simp add: blank_page_def initial_page_def trim_def is_white_space_def)

lemma push_history_distinct:
  "distinct (map entry_query prev) \<Longrightarrow> distinct (map entry_query (push_history payload prev))"
  by (auto simp: push_history_def new_entry_def distinct_map_filter)

lemma push_history_once:
  "length (filter (\<lambda>item. entry_query item = meta_query (meta payload))
            (push_history payload prev)) = 1"
  by (simp add: push_history_def new_entry_def filter_empty_conv)

lemma handleSubmit_success_history:
  "trim (query st) \<noteq> [] \<Longrightarrow> selectedPlatforms st \<noteq> [] \<Longrightarrow>
   fetch (submit_request st) = Ok (Inr payload) \<Longrightarrow>
   history (handleSubmit fetch st) = push_history payload (history st)"
  by (simp add: handleSubmit_def submit_finally_def setHistory_def save_effect_def Let_def)

text \<open>
  Claim C10. After a successful submission the history is the new entry followed by the
  older entries with a different query: exactly one entry has the query of the new
  response, and if the queries of the history were pairwise distinct before, they still
  are.
\<close>

theorem handleSubmit_history_unique:
  assumes "trim (query st) \<noteq> []" and "selectedPlatforms st \<noteq> []"
    and "fetch (submit_request st) = Ok (Inr payload)"
  shows "history (handleSubmit fetch st) =
           new_entry payload #
           filter (\<lambda>item. entry_query item \<noteq> meta_query (meta payload)) (history st) \<and>
         length (filter (\<lambda>item. entry_query item = meta_query (meta payload))
                   (history (handleSubmit fetch st))) = 1 \<and>
         (distinct (map entry_query (history st)) \<longrightarrow>
          distinct (map entry_query (history (handleSubmit fetch st))))"
  using assms handleSubmit_success_history [of st fetch payload]
  by (simp add: push_history_distinct push_history_once) (simp add: push_history_def)

text \<open>
  Witness for C10: the same query submitted again replaces its older entry.
\<close>

theorem handleSubmit_history_unique_witness:
  "trim (query ready_page) \<noteq> [] \<and> selectedPlatforms ready_page \<noteq> [] \<and>
   server_answers (submit_request ready_page) = Ok (Inr sample_response) \<and>
   distinct (map entry_query (history ready_page)) \<and>
   history (handleSubmit server_answers ready_page) = [new_entry sample_response]"
  using handleSubmit_history_unique [of ready_page server_answers sample_response]
  by (simp add: ready_page_def initial_page_def trim_def is_white_space_def server_answers_def
        new_entry_def)

lemma Math_round_round: "Math_round x = round x"
  by (simp add: Math_round_def round_def)

lemma round_tenths_close: "\<bar>real_of_int (round (y * 10)) / 10 - y\<bar> \<le> 1 / 20"
  for y :: real
proof -
  define z where "z = real_of_int (round (y * 10))"
  have "\<bar>z - y * 10\<bar> \<le> 1 / 2"
    unfolding z_def by (rule of_int_round_abs_le)
  then have "\<bar>z / 10 - y\<bar> \<le> 1 / 20"
    by linarith
  then show ?thesis by (simp add: z_def)
qed

section \<open>Properties of double arithmetic and of the average shown\<close>

lemma bitlen_pos: "0 < n \<Longrightarrow> 1 \<le> bitlen n"
  using bitlen_bounds [of n] bitlen_nonneg [of n]
  by (cases "bitlen n = 0") auto

lemma exponent_bounds:
  assumes "x \<noteq> 0"
  shows "2 powi (exponent x) \<le> \<bar>x\<bar>" and "\<bar>x\<bar> < 2 powi (exponent x + 1)"
proof -
  have "2 powi (exponent x) \<le> \<bar>x\<bar> \<and> \<bar>x\<bar> < 2 powi (exponent x + 1)"
  proof (cases "1 \<le> \<bar>x\<bar>")
    case True
    define n where "n = \<lfloor>\<bar>x\<bar>\<rfloor>"
    have n: "0 < n" using True by (simp add: n_def)
    define k where "k = nat (bitlen n - 1)"
    have b: "bitlen n = int k + 1"
      using bitlen_pos [OF n] by (simp add: k_def)
    have e: "exponent x = int k"
      using True by (simp add: exponent_def n_def [symmetric] b)
    have k1: "nat (bitlen n - 1) = k" by (simp add: k_def)
    have k2: "nat (bitlen n) = Suc k" by (simp add: b)
    have "2 ^ k \<le> n" and "n < 2 ^ (Suc k)"
      using bitlen_bounds [OF n] unfolding k1 k2 by blast+
    then have "real_of_int (2 ^ k) \<le> real_of_int n"
      and "real_of_int (n + 1) \<le> real_of_int (2 ^ Suc k)"
      unfolding of_int_le_iff by linarith+
    then have "(2::real) ^ k \<le> real_of_int n" and "real_of_int n + 1 \<le> 2 ^ Suc k"
      by simp_all
    moreover have "real_of_int n \<le> \<bar>x\<bar>" and "\<bar>x\<bar> < real_of_int n + 1"
      by (simp_all add: n_def)
    ultimately have "(2::real) ^ k \<le> \<bar>x\<bar>" and "\<bar>x\<bar> < 2 ^ Suc k"
      by linarith+
    then show ?thesis
      unfolding e by (simp add: power_int_add)
  next
    case False
    define y where "y = 1 / \<bar>x\<bar>"
    have x: "0 < \<bar>x\<bar>" "\<bar>x\<bar> < 1" using assms False by simp_all
    then have y: "1 < y" by (simp add: y_def)
    define N where "N = \<lceil>y\<rceil> - 1"
    have N: "0 < N" using y by (simp add: N_def less_ceiling_iff)
    define k where "k = nat (bitlen N - 1)"
    have b: "bitlen N = int k + 1"
      using bitlen_pos [OF N] by (simp add: k_def)
    have e: "exponent x = - (int k + 1)"
      using False by (simp add: exponent_def y_def [symmetric] N_def [symmetric] b)
    have k1: "nat (bitlen N - 1) = k" by (simp add: k_def)
    have k2: "nat (bitlen N) = Suc k" by (simp add: b)
    have "2 ^ k \<le> N" and "N < 2 ^ (Suc k)"
      using bitlen_bounds [OF N] unfolding k1 k2 by blast+
    then have "real_of_int (2 ^ k) \<le> real_of_int N"
      and "real_of_int (N + 1) \<le> real_of_int (2 ^ Suc k)"
      unfolding of_int_le_iff by linarith+
    then have "(2::real) ^ k \<le> real_of_int N" and "real_of_int N + 1 \<le> 2 ^ Suc k"
      by simp_all
    moreover have "real_of_int N < y" and "y \<le> real_of_int N + 1"
      unfolding N_def by linarith+
    ultimately have lo: "(2::real) ^ k < y" and hi: "y \<le> 2 ^ Suc k"
      by linarith+
    have "\<bar>x\<bar> = 1 / y" using x by (simp add: y_def)
    moreover have "1 / (2::real) ^ Suc k \<le> 1 / y"
      using hi y by (intro divide_left_mono) auto
    moreover have "1 / y < 1 / (2::real) ^ k"
      using lo y by (intro divide_strict_left_mono) auto
    ultimately have "1 / (2::real) ^ Suc k \<le> \<bar>x\<bar>" and "\<bar>x\<bar> < 1 / (2::real) ^ k"
      by simp_all
    moreover have "exponent x = - int (Suc k)" and "exponent x + 1 = - int k"
      by (simp_all add: e)
    then have "2 powi (exponent x) = 1 / (2::real) ^ Suc k"
      and "2 powi (exponent x + 1) = 1 / (2::real) ^ k"
      by (simp_all only: power_int_minus power_int_of_nat inverse_eq_divide)
    ultimately show ?thesis by simp
  qed
  then show "2 powi (exponent x) \<le> \<bar>x\<bar>" and "\<bar>x\<bar> < 2 powi (exponent x + 1)"
    by simp_all
qed

lemma round_half_even_close: "\<bar>real_of_int (round_half_even t) - t\<bar> \<le> 1 / 2"
  unfolding round_half_even_def Let_def by (auto; linarith)

lemma round_half_even_le: "t \<le> real_of_int T \<Longrightarrow> round_half_even t \<le> T"
  unfolding round_half_even_def Let_def
  by (auto simp: floor_le_iff; linarith)

lemma round_half_even_ge: "real_of_int T \<le> t \<Longrightarrow> T \<le> round_half_even t"
  unfolding round_half_even_def Let_def
  by (auto simp: le_floor_iff; linarith)

lemma to_double_close:
  assumes "\<bar>x\<bar> \<le> 2 powi M" and "- 1022 \<le> M" and "M \<le> 1023"
  shows "\<exists>y. to_double x = Num y \<and> \<bar>y - x\<bar> \<le> 2 powi (M - 53) \<and> \<bar>y\<bar> \<le> 2 powi M"
proof (cases "x = 0")
  case True
  then show ?thesis by (simp add: to_double_def)
next
  case False
  define j where "j = max (exponent x - 52) (- 1074)"
  define q :: real where "q = 2 powi j"
  define k where "k = round_half_even (x / q)"
  define y where "y = real_of_int k * q"
  have q: "0 < q" by (simp add: q_def)
  have "exponent x \<le> M"
  proof (rule ccontr)
    assume "\<not> exponent x \<le> M"
    then have "(2::real) powi M < 2 powi (exponent x)"
      by (intro power_int_strict_increasing) auto
    then show False
      using exponent_bounds(1) [OF False] assms(1) by linarith
  qed
  then have j: "j \<le> M - 52"
    using assms(2) by (simp add: j_def)
  define d where "d = nat (M - j)"
  have M: "M = j + int d"
    using j by (simp add: d_def)
  have pM: "(2::real) powi M = 2 ^ d * q"
    unfolding M q_def by (simp add: power_int_add)
  have "\<bar>real_of_int k - x / q\<bar> \<le> 1 / 2"
    unfolding k_def by (rule round_half_even_close)
  then have "\<bar>real_of_int k - x / q\<bar> * q \<le> 1 / 2 * q"
    using q by (intro mult_right_mono) auto
  moreover have "(real_of_int k - x / q) * q = y - x"
    using q by (simp add: y_def left_diff_distrib)
  then have "\<bar>real_of_int k - x / q\<bar> * q = \<bar>y - x\<bar>"
    using q by (metis abs_mult abs_of_pos)
  ultimately have "\<bar>y - x\<bar> \<le> q / 2"
    by simp
  moreover have "q / 2 = 2 powi (j - 1)"
    by (simp add: q_def power_int_diff)
  moreover have "(2::real) powi (j - 1) \<le> 2 powi (M - 53)"
    using j by (intro power_int_increasing) auto
  ultimately have close: "\<bar>y - x\<bar> \<le> 2 powi (M - 53)"
    by simp
  have "\<bar>x\<bar> / q \<le> 2 ^ d"
    using assms(1) q unfolding pM by (simp add: field_simps)
  then have up: "x / q \<le> real_of_int (2 ^ d)" and low: "real_of_int (- (2 ^ d)) \<le> x / q"
    using q by (simp_all add: abs_le_iff field_simps)
  have "k \<le> 2 ^ d"
    unfolding k_def using up by (rule round_half_even_le)
  moreover have "- (2 ^ d) \<le> k"
    unfolding k_def using low by (rule round_half_even_ge)
  ultimately have "real_of_int k \<le> real_of_int (2 ^ d)"
    and "real_of_int (- (2 ^ d)) \<le> real_of_int k"
    unfolding of_int_le_iff by simp_all
  then have "\<bar>real_of_int k\<bar> \<le> 2 ^ d"
    by (simp add: abs_le_iff)
  then have "\<bar>real_of_int k\<bar> * q \<le> 2 ^ d * q"
    using q by (intro mult_right_mono) auto
  then have bound: "\<bar>y\<bar> \<le> 2 powi M"
    using q by (simp add: y_def pM abs_mult)
  have "(2::real) powi M < 2 powi 1024"
    using assms(3) by (intro power_int_strict_increasing) auto
  then have "\<not> 2 ^ 1024 \<le> \<bar>y\<bar>"
    using bound by simp
  then have "to_double x = Num y"
    using False
    by (simp add: to_double_def Let_def quantum_def j_def [symmetric] q_def [symmetric]
          k_def [symmetric] y_def [symmetric])
  then show ?thesis
    using close bound by blast
qed

lemma to_double_21:
  assumes "\<bar>x\<bar> \<le> 2097152"
  shows "\<exists>y. to_double x = Num y \<and> \<bar>y - x\<bar> \<le> 1 / 2 ^ 32"
  using to_double_close [of x 21] assms by (auto simp: power_int_minus_divide)

lemma to_double_11:
  assumes "\<bar>x\<bar> \<le> 2048"
  shows "\<exists>y. to_double x = Num y \<and> \<bar>y - x\<bar> \<le> 1 / 2 ^ 42"
  using to_double_close [of x 11] assms by (auto simp: power_int_minus_divide)

lemma to_double_14:
  assumes "\<bar>x\<bar> \<le> 16384"
  shows "\<exists>y. to_double x = Num y \<and> \<bar>y - x\<bar> \<le> 1 / 2 ^ 39 \<and> \<bar>y\<bar> \<le> 16384"
  using to_double_close [of x 14] assms by (auto simp: power_int_minus_divide)

lemma foldl_number_add_close:
  assumes "\<forall>x \<in> set xs. \<bar>x\<bar> \<le> 1024"
    and "\<bar>a - s\<bar> \<le> real i / 2 ^ 32" and "\<bar>s\<bar> \<le> real i * 1024"
    and "i + length xs \<le> 1024"
  shows "\<exists>t. foldl number_add (Num a) xs = Num t \<and>
           \<bar>t - (s + sum_list xs)\<bar> \<le> real (i + length xs) / 2 ^ 32 \<and>
           \<bar>s + sum_list xs\<bar> \<le> real (i + length xs) * 1024"
  using assms
proof (induction xs arbitrary: a s i)
  case Nil
  then show ?case by simp
next
  case (Cons x xs)
  have x: "\<bar>x\<bar> \<le> 1024" using Cons.prems(1) by simp
  have i: "real i \<le> 1023" using Cons.prems(4) by simp
  have "\<bar>a + x\<bar> \<le> \<bar>a - s\<bar> + \<bar>s\<bar> + \<bar>x\<bar>" by linarith
  also have "\<dots> \<le> real i / 2 ^ 32 + real i * 1024 + 1024"
    using Cons.prems(2,3) x by linarith
  also have "\<dots> \<le> 2097152" using i by simp
  finally obtain y where y: "to_double (a + x) = Num y" "\<bar>y - (a + x)\<bar> \<le> 1 / 2 ^ 32"
    using to_double_21 by blast
  have "real (Suc i) / 2 ^ 32 = real i / 2 ^ 32 + 1 / 2 ^ 32"
    by (simp add: add_divide_distrib)
  then have 1: "\<bar>y - (s + x)\<bar> \<le> real (Suc i) / 2 ^ 32"
    using y(2) Cons.prems(2) by linarith
  have "real (Suc i) * 1024 = real i * 1024 + 1024"
    by simp
  then have 2: "\<bar>s + x\<bar> \<le> real (Suc i) * 1024"
    using x Cons.prems(3) by linarith
  have 3: "Suc i + length xs \<le> 1024" using Cons.prems(4) by simp
  have 4: "\<forall>x \<in> set xs. \<bar>x\<bar> \<le> 1024" using Cons.prems(1) by simp
  show ?case
    using Cons.IH [OF 4 1 2 3] y(1) by (simp add: add.assoc)
qed

lemma Math_round_close: "\<bar>real_of_int (Math_round p) - p\<bar> \<le> 1 / 2"
  unfolding Math_round_def by linarith


lemma engagementScore_close:
  assumes "results r \<noteq> []" and "length (results r) \<le> 1024"
    and "\<forall>item \<in> set (results r). \<bar>score item\<bar> \<le> 1024"
  shows "\<exists>shown k. engagementScore (Some r) = Num shown \<and>
           to_double (real_of_int k / 10) = Num shown \<and>
           \<bar>real_of_int k / 10 - sum_list (map score (results r)) / real (length (results r))\<bar>
             \<le> 1 / 20 + 1 / 2 ^ 31 \<and>
           \<bar>shown - sum_list (map score (results r)) / real (length (results r))\<bar>
             \<le> 1 / 20 + 1 / 2 ^ 31"
proof -
  define xs where "xs = map score (results r)"
  define e :: real where "e = 1 / 2 ^ 32"
  have e: "0 \<le> e" "e \<le> 1 / 1000000" by (simp_all add: e_def)
  have c42: "(1::real) / 2 ^ 42 = e / 1024" by (simp add: e_def)
  have c39: "(1::real) / 2 ^ 39 = e / 128" by (simp add: e_def)
  have c31: "(1::real) / 2 ^ 31 = 2 * e" by (simp add: e_def)
  define n where "n = real (length (results r))"
  define S where "S = sum_list xs"
  have n: "1 \<le> n" "n \<le> 1024"
    using assms(1,2) by (simp_all add: n_def Suc_le_eq)
  have len: "length xs = length (results r)" and xs: "\<forall>x \<in> set xs. \<bar>x\<bar> \<le> 1024"
    using assms(3) by (simp_all add: xs_def)
  have fold: "foldl (\<lambda>sum item. number_add sum (score item)) (Num 0) (results r) =
              foldl number_add (Num 0) xs"
    by (simp add: xs_def foldl_map)
  obtain t where t: "foldl number_add (Num 0) xs = Num t"
    "\<bar>t - S\<bar> \<le> n / 2 ^ 32" "\<bar>S\<bar> \<le> n * 1024"
    using foldl_number_add_close [OF xs, of 0 0 0] assms(2) unfolding n_def S_def len by auto
  have "\<bar>t / n - S / n\<bar> = \<bar>t - S\<bar> / n"
    using n by (simp add: diff_divide_distrib [symmetric])
  also have "\<dots> \<le> (n / 2 ^ 32) / n"
    using t(2) n by (intro divide_right_mono) auto
  also have "\<dots> = e"
    using n by (simp add: e_def)
  finally have tn: "\<bar>t / n - S / n\<bar> \<le> e" .
  have "\<bar>S / n\<bar> = \<bar>S\<bar> / n" using n by simp
  also have "\<dots> \<le> (n * 1024) / n"
    using t(3) n by (intro divide_right_mono) auto
  finally have mean: "\<bar>S / n\<bar> \<le> 1024"
    using n by simp
  have "\<bar>t / n\<bar> \<le> 2048"
    using tn mean e by linarith
  then obtain m where m: "to_double (t / n) = Num m" "\<bar>m - t / n\<bar> \<le> e / 1024"
    using to_double_11 unfolding c42 by blast
  have "\<bar>m\<bar> \<le> 1025"
    using m(2) tn mean e by linarith
  then have "\<bar>m * 10\<bar> \<le> 16384"
    by (simp add: abs_mult)
  then obtain p where p: "to_double (m * 10) = Num p" "\<bar>p - m * 10\<bar> \<le> e / 128"
    "\<bar>p\<bar> \<le> 16384"
    using to_double_14 unfolding c39 by blast
  define k where "k = Math_round p"
  have k: "\<bar>real_of_int k - p\<bar> \<le> 1 / 2"
    unfolding k_def by (rule Math_round_close)
  have "\<bar>real_of_int k\<bar> \<le> 16385"
    using k p(3) by linarith
  then have "\<bar>real_of_int k / 10\<bar> \<le> 2048"
    by simp
  then obtain shown where sh: "to_double (real_of_int k / 10) = Num shown"
    "\<bar>shown - real_of_int k / 10\<bar> \<le> e / 1024"
    using to_double_11 unfolding c42 by blast
  have eq: "engagementScore (Some r) = Num shown"
    using assms(1) t(1) m(1) p(1) sh(1)
    by (simp add: engagementScore_def fold Let_def n_def [symmetric] k_def [symmetric])
  have b1: "\<bar>real_of_int k / 10 - S / n\<bar> \<le> 1 / 20 + 2 * e"
    using k p(2) m(2) tn e by linarith
  have b2: "\<bar>shown - S / n\<bar> \<le> 1 / 20 + 2 * e"
    using k p(2) m(2) tn sh(2) e by linarith
  show ?thesis
    using eq sh(1) b1 b2 unfolding S_def n_def xs_def c31 by blast
qed

lemmas number_eval =
  engagementScore_def to_double_def quantum_def exponent_def bitlen_def compute_floorlog
  round_half_even_def Math_round_def power_int_minus Let_def

text \<open>
  Claim C9, as amended. The average shown is 0 without a response or with an empty one.
  Otherwise it is computed in double arithmetic, every step rounded; for at most 1024
  results with scores of absolute value at most 1024 it is the double nearest to a number
  \<open>k / 10\<close> with one decimal place, and both are within \<open>1 / 20 + 2 ^ - 31\<close> of the
  arithmetic mean of the scores. So it is the mean rounded to one decimal place unless
  the mean lies within \<open>2 ^ - 31\<close> of the midpoint between two tenths, where the
  neighbouring tenth may be shown.
\<close>

theorem engagementScore_near_mean:
  "engagementScore None = Num 0 \<and>
   (results r = [] \<longrightarrow> engagementScore (Some r) = Num 0) \<and>
   (results r \<noteq> [] \<and> length (results r) \<le> 1024 \<and>
    (\<forall>item \<in> set (results r). \<bar>score item\<bar> \<le> 1024) \<longrightarrow>
      (\<exists>shown k. engagementScore (Some r) = Num shown \<and>
         to_double (real_of_int k / 10) = Num shown \<and>
         \<bar>real_of_int k / 10 - sum_list (map score (results r)) / real (length (results r))\<bar>
           \<le> 1 / 20 + 1 / 2 ^ 31 \<and>
         \<bar>shown - sum_list (map score (results r)) / real (length (results r))\<bar>
           \<le> 1 / 20 + 1 / 2 ^ 31))"
  using engagementScore_close [of r] by (simp add: engagementScore_def)

text \<open>
  Witness for C9: the doubles written 8.4 and 7.3 have the mean 7.85 (up to rounding);
  the double written 7.9 is shown.
\<close>

theorem engagementScore_near_mean_witness:
  "results sample_response \<noteq> [] \<and> length (results sample_response) \<le> 1024 \<and>
   map score (results sample_response) =
     [4728779608739021 / 562949953421312, 8219069319951155 / 1125899906842624] \<and>
   engagementScore (Some sample_response) = Num (4447304632028365 / 562949953421312) \<and>
   \<bar>4447304632028365 / 562949953421312 -
      sum_list (map score (results sample_response)) / real (length (results sample_response))\<bar>
     \<le> (1 / 20 + 1 / 2 ^ 31 :: real)"
  using engagementScore_near_mean [of sample_response]
  by (simp add: sample_response_def sample_result_def number_eval)

text \<open>
  Counterexample to C9 as stated: for the scores 0 and the double written 0.3 the mean is
  just below 0.15, so the mean rounded to one decimal place is 0.1, whose double is the
  one written 0.1; the page shows the double written 0.2, which is more than one
  twentieth away from the mean.
\<close>

theorem engagementScore_not_rounded_mean:
  "map score (results low_response) = [0, 5404319552844595 / 18014398509481984] \<and>
   engagementScore (Some low_response) = Num (3602879701896397 / 18014398509481984) \<and>
   real_of_int (round (sum_list (map score (results low_response)) /
                        real (length (results low_response)) * 10)) / 10 = (1 / 10 :: real) \<and>
   to_double (1 / 10) = Num (3602879701896397 / 36028797018963968) \<and>
   (1 / 20 :: real) <
     \<bar>3602879701896397 / 18014398509481984 -
      sum_list (map score (results low_response)) / real (length (results low_response))\<bar>"
  by (simp add: low_response_def sample_result_def number_eval round_def)

section \<open>Properties of the pipeline\<close>

lemma metric_nonneg: "0 \<le> metric m k"
  by (simp add: metric_def split: option.splits)

lemma metric_zero: "\<forall>v. m k = Some v \<longrightarrow> v \<le> 0 \<Longrightarrow> metric m k = 0"
  by (auto simp: metric_def split: option.splits)

lemma signal_nonneg:
  assumes "0 \<le> primary_weight cfg (platform it)" and "0 \<le> secondary_weight cfg (platform it)"
    and "0 \<le> normalization cfg (platform it)"
  shows "0 \<le> signal cfg it"
proof -
  let ?w = "primary_weight cfg (platform it) * metric (metadata it) (primary_metric (platform it)) +
            secondary_weight cfg (platform it) * metric (metadata it) (secondary_metric (platform it))"
  have "0 \<le> ?w"
    using assms(1,2) by (simp add: metric_nonneg)
  then have "0 \<le> ln (1 + ?w)"
    by simp
  then show ?thesis
    using assms(3) by (simp add: signal_def Let_def)
qed

lemma signal_zero:
  "\<forall>k v. metadata it k = Some v \<longrightarrow> v \<le> 0 \<Longrightarrow> signal cfg it = 0"
  by (simp add: signal_def Let_def metric_zero)

lemma Math_round_nonneg: "0 \<le> x \<Longrightarrow> 0 \<le> Math_round x"
  by (simp add: Math_round_def)

text \<open>
  Claim C4. With non-negative weights and a non-negative normalisation constant, the
  score of a result is a real number (hence finite) that is non-negative and a multiple of
  one tenth, at most one twentieth away from the unrounded value; it is exactly 0 when the
  metadata holds no metric value at all, and more generally when every value it holds is
  negative or zero (absent metrics count as 0, negative ones are clamped to 0).
\<close>

theorem score_of_rounded_nonneg:
  assumes "0 \<le> primary_weight cfg (platform it)" and "0 \<le> secondary_weight cfg (platform it)"
    and "0 \<le> normalization cfg (platform it)"
  shows "score (scored cfg it) = score_of cfg it \<and>
         0 \<le> score_of cfg it \<and>
         (\<exists>k::int. score_of cfg it = real_of_int k / 10) \<and>
         \<bar>score_of cfg it - signal cfg it\<bar> \<le> 1 / 20 \<and>
         ((\<forall>k v. metadata it k = Some v \<longrightarrow> v \<le> 0) \<longrightarrow> score_of cfg it = 0)"
proof -
  have "0 \<le> signal cfg it * 10"
    using signal_nonneg [OF assms] by simp
  then have "0 \<le> score_of cfg it"
    by (simp add: score_of_def Math_round_nonneg)
  moreover have "\<bar>score_of cfg it - signal cfg it\<bar> \<le> 1 / 20"
    unfolding score_of_def Math_round_round by (rule round_tenths_close)
  moreover have "(\<forall>k v. metadata it k = Some v \<longrightarrow> v \<le> 0) \<longrightarrow> score_of cfg it = 0"
    by (simp add: score_of_def signal_zero Math_round_def)
  moreover have "\<exists>k::int. score_of cfg it = real_of_int k / 10"
    unfolding score_of_def by blast
  ultimately show ?thesis
    by (simp add: scored_def)
qed

text \<open>
  Witness for C4: a reddit item without any metric scores 0.
\<close>

theorem score_of_rounded_nonneg_witness:
  "0 \<le> primary_weight sample_config reddit \<and> 0 \<le> secondary_weight sample_config reddit \<and>
   0 \<le> normalization sample_config reddit \<and>
   score_of sample_config (normalize sample_config reddit (sample_raw ''a'')) = 0"
  using score_of_rounded_nonneg [of sample_config "normalize sample_config reddit (sample_raw ''a'')"]
  by (simp add: sample_config_def normalize_def sample_raw_def)

lemma mset_finish_order: "mset (finish_order race xs) = mset xs"
proof (induction race xs rule: finish_order.induct)
  case (3 k race x xs)
  let ?ys = "x # xs"
  let ?i = "k mod length ?ys"
  have i: "?i < length ?ys" by simp
  have "mset ?ys = mset (take ?i ?ys @ ?ys ! ?i # drop (Suc ?i) ?ys)"
    using id_take_nth_drop [OF i] by simp
  also have "\<dots> = add_mset (?ys ! ?i) (mset (take ?i ?ys @ drop (Suc ?i) ?ys))"
    by simp
  finally show ?case
    using 3 by (simp add: Let_def del: take_Suc_Cons drop_Suc_Cons nth_Cons_Suc)
qed simp_all

lemma platform_contribution:
  "i \<in> set (contribution cfg registry q p) \<Longrightarrow> platform i = p"
  by (auto simp: contribution_def normalize_def split: option.splits sum.splits)

lemma platform_scored [simp]: "platform (scored cfg i) = platform i"
  by (simp add: scored_def)

lemma score_scored [simp]: "score (scored cfg i) = score_of cfg i"
  by (simp add: scored_def)

lemma precedence_inj: "precedence p = precedence q \<Longrightarrow> p = q"
  by (cases p; cases q) simp_all

lemma rank_key_eq:
  "rank_key r = (- s, precedence p) \<longleftrightarrow> score r = s \<and> platform r = p"
  by (auto simp: rank_key_def dest: precedence_inj)

lemma concat_map_one_source:
  assumes "\<And>q. q \<noteq> p \<Longrightarrow> g q = []"
  shows "concat (map g arr) = concat (replicate (count_list arr p) (g p))"
  using assms by (induction arr) auto

lemma concat_map_mset_cong:
  assumes "mset arr1 = mset arr2" and "\<And>q. q \<noteq> p \<Longrightarrow> g q = []"
  shows "concat (map g arr1) = concat (map g arr2)"
proof -
  have "count_list arr1 p = count_list arr2 p"
    using assms(1) by (metis count_mset)
  then show ?thesis
    using concat_map_one_source [where p = p and g = g and arr = arr1]
      concat_map_one_source [where p = p and g = g and arr = arr2] assms(2)
    by simp
qed

lemma mset_concat_map_cong:
  assumes "mset arr1 = mset arr2"
  shows "mset (concat (map c arr1)) = mset (concat (map c arr2))"
proof -
  have "mset (concat (map c arr)) = sum_mset (image_mset (\<lambda>p. mset (c p)) (mset arr))" for arr
    by (induction arr) simp_all
  then show ?thesis
    using assms by simp
qed

lemma sort_key_mset_cong:
  assumes "mset xs = mset ys"
    and "\<And>k. filter (\<lambda>x. f x = k) xs = filter (\<lambda>x. f x = k) ys"
  shows "sort_key f xs = sort_key f ys"
proof (rule properties_for_sort_key)
  show "mset (sort_key f ys) = mset xs"
    using assms(1) by simp
  show "sorted (map f (sort_key f ys))"
    by simp
  fix k
  have "filter (\<lambda>x. f x = f k) (sort_key f ys) = filter (\<lambda>x. f x = f k) xs"
    using assms(2) [of "f k"] by (simp add: sort_key_stable)
  moreover have "(\<lambda>x. f k = f x) = (\<lambda>x. f x = f k)"
    by auto
  ultimately show "filter (\<lambda>x. f k = f x) (sort_key f ys) = filter (\<lambda>x. f k = f x) xs"
    by simp
qed

lemma one_platform_per_key:
  "\<exists>p. \<forall>q. q \<noteq> p \<longrightarrow>
     filter (\<lambda>r. rank_key r = k) (map (scored cfg) (contribution cfg registry qu q)) = []"
proof (cases "\<exists>p. precedence p = snd k")
  case True
  then obtain p where p: "precedence p = snd k" ..
  have "filter (\<lambda>r. rank_key r = k) (map (scored cfg) (contribution cfg registry qu q)) = []"
    if "q \<noteq> p" for q
    using that p
    by (auto simp: filter_empty_conv rank_key_def dest!: platform_contribution precedence_inj)
  then show ?thesis by blast
next
  case False
  then have "filter (\<lambda>r. rank_key r = k) (map (scored cfg) (contribution cfg registry qu q)) = []"
    for q
    by (auto simp: filter_empty_conv rank_key_def)
  then show ?thesis by blast
qed

lemma merged_key_filter_cong:
  assumes "mset arr1 = mset arr2"
  shows "filter (\<lambda>r. rank_key r = k)
           (map (scored cfg) (concat (map (contribution cfg registry qu) arr1))) =
         filter (\<lambda>r. rank_key r = k)
           (map (scored cfg) (concat (map (contribution cfg registry qu) arr2)))"
proof -
  define g where
    "g q = filter (\<lambda>r. rank_key r = k) (map (scored cfg) (contribution cfg registry qu q))" for q
  have expand: "filter (\<lambda>r. rank_key r = k)
                  (map (scored cfg) (concat (map (contribution cfg registry qu) arr))) =
                concat (map g arr)" for arr
    unfolding g_def by (simp add: map_concat filter_concat comp_def)
  obtain p where "\<forall>q. q \<noteq> p \<longrightarrow> g q = []"
    using one_platform_per_key [of k cfg registry qu] unfolding g_def by blast
  then have "concat (map g arr1) = concat (map g arr2)"
    using concat_map_mset_cong [where p = p and g = g and ?arr1.0 = arr1 and ?arr2.0 = arr2] assms
    by blast
  then show ?thesis
    by (simp add: expand)
qed

lemma rank_merge_order_irrelevant:
  assumes "mset arr1 = mset arr2"
  shows "rank cfg (map (scored cfg) (concat (map (contribution cfg registry qu) arr1))) =
         rank cfg (map (scored cfg) (concat (map (contribution cfg registry qu) arr2)))"
proof -
  have "sort_key rank_key (map (scored cfg) (concat (map (contribution cfg registry qu) arr1))) =
        sort_key rank_key (map (scored cfg) (concat (map (contribution cfg registry qu) arr2)))"
  proof (rule sort_key_mset_cong)
    show "mset (map (scored cfg) (concat (map (contribution cfg registry qu) arr1))) =
          mset (map (scored cfg) (concat (map (contribution cfg registry qu) arr2)))"
      using mset_concat_map_cong [OF assms, of "contribution cfg registry qu"] by simp
  qed (rule merged_key_filter_cong [OF assms])
  then show ?thesis
    by (simp add: rank_def)
qed

lemma run_race_irrelevant:
  "map_sum id (\<lambda>(merged, attempted). (rank cfg (map (scored cfg) merged), attempted))
     (run cfg registry race1 request) =
   map_sum id (\<lambda>(merged, attempted). (rank cfg (map (scored cfg) merged), attempted))
     (run cfg registry race2 request)"
proof -
  let ?c = "contribution cfg registry (req_query request)"
  have "mset (finish_order race1 (req_platforms request)) =
        mset (finish_order race2 (req_platforms request))"
    by (simp add: mset_finish_order)
  then have eq:
    "rank cfg (map (scored cfg) (concat (map ?c (finish_order race1 (req_platforms request))))) =
     rank cfg (map (scored cfg) (concat (map ?c (finish_order race2 (req_platforms request)))))"
    by (rule rank_merge_order_irrelevant)
  show ?thesis
  proof (cases "filter (\<lambda>p. registry p = None) (req_platforms request)")
    case Nil
    then show ?thesis
      using eq by (simp add: run_def Let_def)
  next
    case (Cons p ps)
    then show ?thesis
      by (simp add: run_def Let_def)
  qed
qed

text \<open>
  Claim C7. Two runs of the pipeline on the same request with the same adapter responses
  agree on everything but \<open>generatedAt\<close>, whatever the times of assembly and whatever the
  order in which the adapters finish in each run: they fail alike or return the same
  results, the same recommended angles and the same follow-up prompts.
\<close>

theorem pipeline_two_runs_agree:
  "map_sum id forget_generatedAt
     (searchAcrossPlatforms cfg registry synthesize race1 now1 request) =
   map_sum id forget_generatedAt
     (searchAcrossPlatforms cfg registry synthesize race2 now2 request) \<and>
   (\<forall>r1 r2.
      searchAcrossPlatforms cfg registry synthesize race1 now1 request = Inr r1 \<and>
      searchAcrossPlatforms cfg registry synthesize race2 now2 request = Inr r2 \<longrightarrow>
      results r1 = results r2 \<and>
      recommendedAngles (meta r1) = recommendedAngles (meta r2) \<and>
      nextPrompts (meta r1) = nextPrompts (meta r2))"
proof -
  let ?post = "\<lambda>(merged, attempted). (rank cfg (map (scored cfg) merged), attempted)"
  have a: "map_sum id forget_generatedAt
             (searchAcrossPlatforms cfg registry synthesize race now request) =
           map_sum id
             (\<lambda>(ranked, attempted).
                let (angles, prompts) = synthesize (req_query request) ranked
                in \<lparr>results = ranked,
                    meta = \<lparr>meta_query = req_query request, generatedAt = [],
                            meta_platforms = attempted,
                            recommendedAngles = angles, nextPrompts = prompts\<rparr>\<rparr>)
             (map_sum id ?post (run cfg registry race request))" for race now
    by (cases "run cfg registry race request")
       (auto simp: searchAcrossPlatforms_def forget_generatedAt_def Let_def split: prod.splits)
  have first: "map_sum id forget_generatedAt
       (searchAcrossPlatforms cfg registry synthesize race1 now1 request) =
     map_sum id forget_generatedAt
       (searchAcrossPlatforms cfg registry synthesize race2 now2 request)"
    unfolding a using run_race_irrelevant [of cfg registry race1 request race2] by simp
  have "results r1 = results r2 \<and>
        recommendedAngles (meta r1) = recommendedAngles (meta r2) \<and>
        nextPrompts (meta r1) = nextPrompts (meta r2)"
    if "searchAcrossPlatforms cfg registry synthesize race1 now1 request = Inr r1"
      and "searchAcrossPlatforms cfg registry synthesize race2 now2 request = Inr r2" for r1 r2
  proof -
    have "forget_generatedAt r1 = forget_generatedAt r2"
      using first that by simp
    then have "results (forget_generatedAt r1) = results (forget_generatedAt r2)"
      and "recommendedAngles (meta (forget_generatedAt r1)) =
           recommendedAngles (meta (forget_generatedAt r2))"
      and "nextPrompts (meta (forget_generatedAt r1)) = nextPrompts (meta (forget_generatedAt r2))"
      by simp_all
    then show ?thesis
      by (simp add: forget_generatedAt_def)
  qed
  with first show ?thesis by blast
qed

lemma sample_run_default:
  "searchAcrossPlatforms sample_config sample_registry sample_synthesize [] ''t1''
     all_platforms_request = Inr (sample_outcome ''t1'')"
  by (simp add: searchAcrossPlatforms_def run_def contribution_def adapter_failure_def
        List.map_filter_def sample_config_def sample_registry_def sample_synthesize_def
        all_platforms_request_def sample_outcome_def sample_ranked_def sample_result_def
        sample_raw_def normalize_def rank_def rank_key_def scored_def score_of_def signal_def
        metric_def secondary_metric_def Math_round_def Let_def)

lemma sample_run_raced:
  "searchAcrossPlatforms sample_config sample_registry sample_synthesize [2, 0] ''t2''
     all_platforms_request = Inr (sample_outcome ''t2'')"
  by (simp add: searchAcrossPlatforms_def run_def contribution_def adapter_failure_def
        List.map_filter_def sample_config_def sample_registry_def sample_synthesize_def
        all_platforms_request_def sample_outcome_def sample_ranked_def sample_result_def
        sample_raw_def normalize_def rank_def rank_key_def scored_def score_of_def signal_def
        metric_def secondary_metric_def Math_round_def Let_def)

lemma sample_finish: "finish_order [2, 0] [reddit, hackernews, devto] = [devto, reddit, hackernews]"
  by simp


text \<open>
  Witness for C7: two runs with different finishing orders and different times.
\<close>

theorem pipeline_two_runs_agree_witness:
  "searchAcrossPlatforms sample_config sample_registry sample_synthesize [] ''t1''
     all_platforms_request = Inr (sample_outcome ''t1'') \<and>
   searchAcrossPlatforms sample_config sample_registry sample_synthesize [2, 0] ''t2''
     all_platforms_request = Inr (sample_outcome ''t2'') \<and>
   results (sample_outcome ''t1'') = results (sample_outcome ''t2'') \<and>
   recommendedAngles (meta (sample_outcome ''t1'')) =
     recommendedAngles (meta (sample_outcome ''t2'')) \<and>
   nextPrompts (meta (sample_outcome ''t1'')) = nextPrompts (meta (sample_outcome ''t2''))"
  using pipeline_two_runs_agree [of sample_config sample_registry sample_synthesize "[]" "''t1''"
      all_platforms_request "[2, 0]" "''t2''"]
    sample_run_default sample_run_raced
  by simp

lemma sorted_rank: "sorted (map rank_key (rank cfg rs))"
  by (cases "max_total cfg") (simp_all add: rank_def take_map [symmetric] sorted_wrt_take)

lemma rank_key_order:
  assumes "sorted (map rank_key rs)"
  shows "sorted_wrt (\<lambda>a b. score b \<le> score a) rs"
    and "sorted_wrt (\<lambda>a b. score a = score b \<longrightarrow>
           precedence (platform a) \<le> precedence (platform b)) rs"
proof -
  have k: "sorted_wrt (\<lambda>a b. rank_key a \<le> rank_key b) rs"
    using assms by (simp add: sorted_map)
  show "sorted_wrt (\<lambda>a b. score b \<le> score a) rs"
    by (rule sorted_wrt_mono_rel [OF _ k]) (auto simp: rank_key_def)
  show "sorted_wrt (\<lambda>a b. score a = score b \<longrightarrow>
          precedence (platform a) \<le> precedence (platform b)) rs"
    by (rule sorted_wrt_mono_rel [OF _ k]) (auto simp: rank_key_def)
qed

lemma rank_stable:
  "prefix (filter (\<lambda>r. platform r = p \<and> score r = s) (rank cfg rs))
          (filter (\<lambda>r. platform r = p \<and> score r = s) rs)"
proof -
  let ?P = "\<lambda>r. platform r = p \<and> score r = s"
  have P: "?P = (\<lambda>r. rank_key r = (- s, precedence p))"
    by (auto simp: rank_key_eq)
  have "prefix (rank cfg rs) (sort_key rank_key rs)"
    by (cases "max_total cfg") (simp_all add: rank_def take_is_prefix)
  then have "prefix (filter ?P (rank cfg rs)) (filter ?P (sort_key rank_key rs))"
    by (rule filter_mono_prefix)
  moreover have "filter ?P (sort_key rank_key rs) = filter ?P rs"
    unfolding P by (rule sort_key_stable)
  ultimately show ?thesis by simp
qed

lemma rank_stable_untruncated:
  "max_total cfg = None \<Longrightarrow>
   filter (\<lambda>r. platform r = p \<and> score r = s) (rank cfg rs) =
   filter (\<lambda>r. platform r = p \<and> score r = s) rs"
proof -
  let ?P = "\<lambda>r. platform r = p \<and> score r = s"
  assume "max_total cfg = None"
  then have "rank cfg rs = sort_key rank_key rs"
    by (simp add: rank_def)
  moreover have "?P = (\<lambda>r. rank_key r = (- s, precedence p))"
    by (auto simp: rank_key_eq)
  ultimately show ?thesis
    by (simp add: sort_key_stable)
qed

lemma merged_platform_filter:
  assumes "distinct arr"
  shows "filter (\<lambda>i. platform i = p) (concat (map (contribution cfg registry qu) arr)) =
         (if p \<in> set arr then contribution cfg registry qu p else [])"
  using assms
proof (induction arr)
  case Nil
  then show ?case by simp
next
  case (Cons a arr)
  have own: "filter (\<lambda>i. platform i = p) (contribution cfg registry qu a) =
             (if a = p then contribution cfg registry qu a else [])"
    by (auto simp: filter_empty_conv filter_id_conv dest: platform_contribution)
  show ?case
    using Cons own by auto
qed

lemma scored_merged_filter:
  assumes "distinct arr"
  shows "filter (\<lambda>r. platform r = p \<and> score r = s)
           (map (scored cfg) (concat (map (contribution cfg registry qu) arr))) =
         (if p \<in> set arr
          then filter (\<lambda>r. score r = s) (map (scored cfg) (contribution cfg registry qu p))
          else [])"
proof -
  let ?m = "concat (map (contribution cfg registry qu) arr)"
  have "filter (\<lambda>r. platform r = p \<and> score r = s) (map (scored cfg) ?m) =
        filter (\<lambda>r. score r = s) (map (scored cfg) (filter (\<lambda>i. platform i = p) ?m))"
    by (simp add: filter_map comp_def conj_commute)
  then show ?thesis
    by (simp add: merged_platform_filter [OF assms])
qed

lemma pipeline_results:
  assumes "searchAcrossPlatforms cfg registry synthesize race now request = Inr response"
  shows "results response =
           rank cfg (map (scored cfg)
             (concat (map (contribution cfg registry (req_query request))
                        (finish_order race (req_platforms request)))))"
  using assms
  by (auto simp: searchAcrossPlatforms_def run_def Let_def
           split: sum.splits prod.splits list.splits if_splits)

text \<open>
  Claim C3. For a valid request, the results of the response are sorted by score
  descending; of two results with the same score the one whose platform comes first in
  the precedence reddit, hackernews, devto comes first; and the results of one platform
  with the same score appear in the order in which the adapter returned them (all of them
  when the ranker does not truncate, a leading part of them otherwise).
\<close>

theorem pipeline_results_ranked:
  assumes "valid_request request"
    and "searchAcrossPlatforms cfg registry synthesize race now request = Inr response"
  shows "sorted_wrt (\<lambda>a b. score b \<le> score a) (results response) \<and>
         sorted_wrt (\<lambda>a b. score a = score b \<longrightarrow>
           precedence (platform a) \<le> precedence (platform b)) (results response) \<and>
         (\<forall>p s. prefix
            (filter (\<lambda>r. platform r = p \<and> score r = s) (results response))
            (filter (\<lambda>r. score r = s)
               (map (scored cfg) (contribution cfg registry (req_query request) p)))) \<and>
         (max_total cfg = None \<longrightarrow>
            (\<forall>p \<in> set (req_platforms request). \<forall>s.
               filter (\<lambda>r. platform r = p \<and> score r = s) (results response) =
               filter (\<lambda>r. score r = s)
                 (map (scored cfg) (contribution cfg registry (req_query request) p))))"
proof -
  let ?arr = "finish_order race (req_platforms request)"
  let ?all = "map (scored cfg) (concat (map (contribution cfg registry (req_query request)) ?arr))"
  have res: "results response = rank cfg ?all"
    using assms(2) by (rule pipeline_results)
  have "mset ?arr = mset (req_platforms request)"
    by (rule mset_finish_order)
  then have d: "distinct ?arr" and st: "set ?arr = set (req_platforms request)"
    using assms(1) by (metis valid_request_def mset_eq_imp_distinct_iff, metis mset_eq_setD)
  have srt: "sorted (map rank_key (results response))"
    unfolding res by (rule sorted_rank)
  have stable: "prefix
      (filter (\<lambda>r. platform r = p \<and> score r = s) (results response))
      (filter (\<lambda>r. score r = s)
         (map (scored cfg) (contribution cfg registry (req_query request) p)))" for p s
  proof -
    have "prefix (filter (\<lambda>r. platform r = p \<and> score r = s) (results response))
            (filter (\<lambda>r. platform r = p \<and> score r = s) ?all)"
      unfolding res by (rule rank_stable)
    then show ?thesis
      unfolding scored_merged_filter [OF d] by (simp split: if_splits)
  qed
  have exact: "filter (\<lambda>r. platform r = p \<and> score r = s) (results response) =
      filter (\<lambda>r. score r = s)
        (map (scored cfg) (contribution cfg registry (req_query request) p))"
    if "max_total cfg = None" and "p \<in> set (req_platforms request)" for p s
    unfolding res rank_stable_untruncated [OF that(1)] scored_merged_filter [OF d]
    using that(2) st by simp
  show ?thesis
    using rank_key_order [OF srt] stable exact by blast
qed

text \<open>
  Witness for C3: reddit returns two items, hackernews times out, devto returns one.
\<close>

theorem pipeline_results_ranked_witness:
  "valid_request all_platforms_request \<and>
   searchAcrossPlatforms sample_config sample_registry sample_synthesize [2, 0] ''t2''
     all_platforms_request = Inr (sample_outcome ''t2'') \<and>
   sorted_wrt (\<lambda>a b. score b \<le> score a) (results (sample_outcome ''t2'')) \<and>
   map item_id (results (sample_outcome ''t2'')) = [''reddit:a'', ''reddit:b'', ''devto:c'']"
proof -
  have v: "valid_request all_platforms_request"
    by (simp add: valid_request_def all_platforms_request_def trim_def is_white_space_def)
  show ?thesis
    using pipeline_results_ranked [OF v sample_run_raced] v sample_run_raced
    by (simp add: sample_outcome_def sample_ranked_def sample_result_def)
qed

end
